theory Spec2Isabelle
  imports Complex_Main
begin

section \<open>The Cartesian structured mesh of \<open>snake/cartesianMesh.py\<close>\<close>

text \<open>
  The module builds one-dimensional vertex distributions (class \<open>Segment\<close>), joins them
  into gridlines (class \<open>GridLine\<close>) and gridlines into a mesh
  (class \<open>CartesianStructuredMesh\<close>), which is written to and read from a text file.

  Conventions of the embedding.
  \<^item> The module is Python 2 (\<open>reduce\<close> is the builtin): \<open>round\<close> rounds a half away from
    zero and \<open>int\<close> truncates toward zero.
  \<^item> A Python float is idealised as a real number. Every exception the arithmetic can raise
    on real numbers is a branch of the model (\<open>math.log\<close> of a non-positive number, a
    division by zero); overflow and the rounding error of IEEE arithmetic are outside it.
  \<^item> A numpy array of floats is a list of reals; an attribute that a constructor leaves
    unset is \<open>None\<close>.
  \<^item> The grid file is its parsed content: the integers of the first line and the floats
    of the remaining lines.
\<close>

subsection \<open>Python and numpy primitives\<close>

datatype error = AttributeError | IndexError | ValueError | ZeroDivisionError | SystemExit

text \<open>\<open>int(round(x))\<close> in Python 2: the nearest integer, a half away from zero.\<close>

definition py_round :: "real \<Rightarrow> int" where
  "py_round x = (if 0 \<le> x then \<lfloor>x + 1 / 2\<rfloor> else \<lceil>x - 1 / 2\<rceil>)"

text \<open>\<open>int(x)\<close>: truncation toward zero.\<close>

definition py_int :: "real \<Rightarrow> int" where
  "py_int x = (if 0 \<le> x then \<lfloor>x\<rfloor> else \<lceil>x\<rceil>)"

text \<open>\<open>numpy.rint\<close>: the nearest integer, a half to the even neighbour.\<close>

definition rint :: "real \<Rightarrow> int" where
  "rint x =
     (let f = \<lfloor>x\<rfloor> in
      if x - of_int f < 1 / 2 then f
      else if 1 / 2 < x - of_int f then f + 1
      else if even f then f else f + 1)"

text \<open>\<open>numpy.round(x, decimals)\<close>: scale, \<open>rint\<close>, scale back.\<close>

definition numpy_round :: "int \<Rightarrow> real \<Rightarrow> real" where
  "numpy_round decimals x =
     (if 0 \<le> decimals then of_int (rint (x * 10 ^ nat decimals)) / 10 ^ nat decimals
      else of_int (rint (x / 10 ^ nat (- decimals))) * 10 ^ nat (- decimals))"

text \<open>\<open>numpy.unique\<close>: the distinct values, ascending.\<close>

definition numpy_unique :: "real list \<Rightarrow> real list" where
  "numpy_unique xs = sort (remdups xs)"

text \<open>\<open>numpy.all\<close> of an array of floats: no element is zero (true of the empty array).\<close>

definition numpy_all :: "real list \<Rightarrow> bool" where
  "numpy_all vs = list_all (\<lambda>v. v \<noteq> 0) vs"

text \<open>\<open>numpy.concatenate\<close> of a list of arrays; it raises \<open>ValueError\<close> on the empty list.\<close>

definition numpy_concatenate :: "real list list \<Rightarrow> error + real list" where
  "numpy_concatenate arrays = (if arrays = [] then Inl ValueError else Inr (concat arrays))"

fun cumsum_from :: "'a::plus \<Rightarrow> 'a list \<Rightarrow> 'a list" where
  "cumsum_from acc [] = []"
| "cumsum_from acc (x # xs) = (acc + x) # cumsum_from (acc + x) xs"

fun cumprod_from :: "real \<Rightarrow> real list \<Rightarrow> real list" where
  "cumprod_from acc [] = []"
| "cumprod_from acc (x # xs) = (acc * x) # cumprod_from (acc * x) xs"

definition numpy_cumsum :: "'a::{plus,zero} list \<Rightarrow> 'a list" where
  "numpy_cumsum xs = cumsum_from 0 xs"

definition numpy_cumprod :: "real list \<Rightarrow> real list" where
  "numpy_cumprod xs = cumprod_from 1 xs"

text \<open>
  \<open>numpy.arange(start, stop, step)\<close> for a non-zero step: \<open>ceil((stop - start) / step)\<close>
  values (none when that is negative), the i-th being \<open>start + i * step\<close>.
\<close>

definition numpy_arange :: "real \<Rightarrow> real \<Rightarrow> real \<Rightarrow> real list" where
  "numpy_arange start stop step =
     map (\<lambda>i. start + real i * step) [0 ..< nat \<lceil>(stop - start) / step\<rceil>]"

text \<open>
  A slice \<open>xs[st:en]\<close>: a negative index counts from the end, and an index out of range is
  clamped.
\<close>

definition slice_index :: "nat \<Rightarrow> int \<Rightarrow> nat" where
  "slice_index n i = (if i < 0 then nat (max (i + int n) 0) else min (nat i) n)"

definition py_slice :: "'a list \<Rightarrow> int \<Rightarrow> int \<Rightarrow> 'a list" where
  "py_slice xs st en =
     (let s = slice_index (length xs) st; e = slice_index (length xs) en
      in take (e - s) (drop s xs))"

text \<open>
  \<open>numpy.split(ary, indices)\<close>: with \<open>div_points = [0] + indices + [len(ary)]\<close>, the
  i-th piece is \<open>ary[div_points[i]:div_points[i+1]]\<close>.
\<close>

fun split_points :: "'a list \<Rightarrow> int list \<Rightarrow> 'a list list" where
  "split_points ary (st # en # points) = py_slice ary st en # split_points ary (en # points)"
| "split_points ary points = []"

definition numpy_split :: "'a list \<Rightarrow> int list \<Rightarrow> 'a list list" where
  "numpy_split ary indices = split_points ary ([0] @ indices @ [int (length ary)])"

text \<open>The builtin \<open>reduce(function, sequence, initial)\<close>: a fold from the left.\<close>

definition reduce :: "('b \<Rightarrow> 'a \<Rightarrow> 'b) \<Rightarrow> 'a list \<Rightarrow> 'b \<Rightarrow> 'b" where
  "reduce f xs initial = foldl f initial xs"

subsection \<open>Segment: the number of divisions and the vertices\<close>

text \<open>
  \<open>math.log(1.0-length/width*(1.0-ratio))/math.log(ratio)\<close>, with the exceptions in the
  order Python raises them.
\<close>

definition log_quotient :: "real \<Rightarrow> real \<Rightarrow> real \<Rightarrow> error + real" where
  "log_quotient len width ratio =
     (if width = 0 then Inl ZeroDivisionError
      else if 1 - len / width * (1 - ratio) \<le> 0 then Inl ValueError
      else if ratio \<le> 0 then Inl ValueError
      else if ln ratio = 0 then Inl ZeroDivisionError
      else Inr (ln (1 - len / width * (1 - ratio)) / ln ratio))"

text \<open>\<open>n = int(round(...))\<close> of lines 92 and 168.\<close>

definition stretched_divisions :: "real \<Rightarrow> real \<Rightarrow> real \<Rightarrow> error + int" where
  "stretched_divisions len width ratio =
     (case log_quotient len width ratio of
        Inl e \<Rightarrow> Inl e
      | Inr q \<Rightarrow> Inr (py_round q))"

text \<open>
  \<open>Segment.get_vertices\<close>, as a function of the attributes it reads. It returns the
  vertices with the values it leaves in \<open>self.aspect_ratio\<close> and \<open>self.stretch_ratio\<close>.
  \<open>sys.exit\<close> is the error \<open>SystemExit\<close>; \<open>numpy.empty(n)\<close> raises \<open>ValueError\<close> for a
  negative \<open>n\<close>, and \<open>widths[0]\<close> raises \<open>IndexError\<close> when \<open>n = 0\<close>.
\<close>

definition get_vertices ::
  "real \<Rightarrow> real \<Rightarrow> real \<Rightarrow> real \<Rightarrow> bool \<Rightarrow> error + (real list \<times> real \<times> real)" where
  "get_vertices start endv width ratio reverse =
     (let len = \<bar>endv - start\<bar> in
      if \<bar>ratio - 1\<bar> < 1 / 10 ^ 6 then
        (if width = 0 then Inl ZeroDivisionError
         else if 1 / 10 ^ 12 < \<bar>of_int (py_round (len / width)) - len / width\<bar>
           then Inl SystemExit
         else Inr (numpy_arange start (endv + width / 2) width, 1, ratio))
      else
        (case stretched_divisions len width ratio of
           Inl e \<Rightarrow> Inl e
         | Inr n \<Rightarrow>
             if n < 0 then Inl ValueError
             else if n = 0 then Inl IndexError
             else
               (let widths = numpy_cumprod (width # replicate (nat n - 1) ratio);
                    aspect_ratio = last widths / hd widths
                in if reverse
                   then Inr (rev (endv # map (\<lambda>c. endv - c) (numpy_cumsum widths)),
                             aspect_ratio, 1 / ratio)
                   else Inr (start # map (\<lambda>c. start + c) (numpy_cumsum widths),
                             aspect_ratio, ratio))))"

subsection \<open>Segment: the search for the stretching ratio\<close>

text \<open>
  The loop of \<open>compute_stretch_ratio\<close>, from the state \<open>(current_precision, ratio)\<close>.
  \<open>ratio**(n-1)\<close> is a power with an integer exponent.
\<close>

function compute_stretch_ratio_loop ::
  "real \<Rightarrow> real \<Rightarrow> real \<Rightarrow> int \<Rightarrow> int \<Rightarrow> real \<Rightarrow> error + real" where
  "compute_stretch_ratio_loop len width aspect_ratio precision current_precision ratio =
     (if current_precision < precision then
        (case stretched_divisions len width ratio of
           Inl e \<Rightarrow> Inl e
         | Inr n \<Rightarrow>
             if ratio powi (n - 1) < aspect_ratio
             then compute_stretch_ratio_loop len width aspect_ratio precision
                    (current_precision + 1) (ratio + (1 / 10) powi current_precision)
             else compute_stretch_ratio_loop len width aspect_ratio precision
                    current_precision (ratio - (1 / 10) powi current_precision))
      else Inr ratio)"
  by pat_completeness auto
termination
proof (relation "measures
    [\<lambda>(len, width, aspect_ratio, precision, current_precision, ratio).
        nat (precision - current_precision),
     \<lambda>(len, width, aspect_ratio, precision, current_precision, ratio).
        nat \<lceil>ratio / (1 / 10) powi current_precision\<rceil>]", goal_cases)
  case 1
  show ?case by simp
next
  case (2 len width aspect_ratio precision current_precision ratio n)
  then show ?case by simp
next
  case (3 len width aspect_ratio precision current_precision ratio n)
  define step :: real where "step = (1 / 10) powi current_precision"
  have step: "0 < step"
    by (simp add: step_def)
  have pos: "0 < ratio"
    using 3(2) by (auto simp: stretched_divisions_def log_quotient_def split: if_splits)
  have "(ratio - step) / step = ratio / step - 1"
    using step by (simp add: diff_divide_distrib)
  then have c: "\<lceil>(ratio - step) / step\<rceil> = \<lceil>ratio / step\<rceil> - 1"
    by simp
  have "0 < ratio / step"
    using pos step by simp
  then have "0 < \<lceil>ratio / step\<rceil>"
    by (simp add: ceiling_less_iff)
  with c have "nat \<lceil>(ratio - step) / step\<rceil> < nat \<lceil>ratio / step\<rceil>"
    by simp
  then show ?case
    by (simp add: step_def)
qed

definition compute_stretch_ratio :: "real \<Rightarrow> real \<Rightarrow> real \<Rightarrow> real \<Rightarrow> int \<Rightarrow> error + real" where
  "compute_stretch_ratio start endv width aspect_ratio precision =
     compute_stretch_ratio_loop \<bar>endv - start\<bar> width aspect_ratio precision 1 2"

text \<open>The local function \<open>geometric_sum\<close> of \<open>compute_optimal_stretch_ratio\<close>.\<close>

definition geometric_sum :: "real \<Rightarrow> real \<Rightarrow> int \<Rightarrow> real" where
  "geometric_sum a r n = a * (1 - r powi n) / (1 - r)"

text \<open>
  \<open>math.log(1.0-(1.0-ratio)*length/width)/math.log(ratio)\<close> of line 237, with its
  exceptions.
\<close>

definition log_quotient_optimal :: "real \<Rightarrow> real \<Rightarrow> real \<Rightarrow> error + real" where
  "log_quotient_optimal len width ratio =
     (if width = 0 then Inl ZeroDivisionError
      else if 1 - (1 - ratio) * len / width \<le> 0 then Inl ValueError
      else if ratio \<le> 0 then Inl ValueError
      else if ln ratio = 0 then Inl ZeroDivisionError
      else Inr (ln (1 - (1 - ratio) * len / width) / ln ratio))"

text \<open>
  The loop of \<open>compute_optimal_stretch_ratio\<close>, from the state \<open>(precision_ratio, ratio)\<close>.
  Where the quotient of logarithms is defined the ratio is not 1, so \<open>geometric_sum\<close>
  does not divide by zero.
\<close>

function compute_optimal_loop :: "real \<Rightarrow> real \<Rightarrow> int \<Rightarrow> int \<Rightarrow> real \<Rightarrow> error + real" where
  "compute_optimal_loop len width precision precision_ratio ratio =
     (if precision_ratio < precision then
        (case log_quotient_optimal len width ratio of
           Inl e \<Rightarrow> Inl e
         | Inr q \<Rightarrow>
             (let n = py_int q;
                  deviation_inf = \<bar>len - geometric_sum width ratio n\<bar>;
                  deviation_sup = \<bar>len - geometric_sum width ratio (n + 1)\<bar>
              in if deviation_inf < deviation_sup
                 then compute_optimal_loop len width precision (precision_ratio + 1)
                        (ratio + (1 / 10) powi (precision_ratio + 1))
                 else compute_optimal_loop len width precision (precision_ratio + 1)
                        (ratio - (1 / 10) powi (precision_ratio + 1))))
      else Inr ratio)"
  by pat_completeness auto
termination
  by (relation "measure (\<lambda>(len, width, precision, precision_ratio, ratio).
        nat (precision - precision_ratio))") auto

text \<open>
  \<open>compute_optimal_stretch_ratio\<close>. The start value
  \<open>abs(Decimal(str(ratio)).as_tuple().exponent)\<close> reads the printed form of the float; it
  is the parameter \<open>decimal_exponent\<close>.
\<close>

definition compute_optimal_stretch_ratio ::
  "(real \<Rightarrow> int) \<Rightarrow> real \<Rightarrow> real \<Rightarrow> real \<Rightarrow> real \<Rightarrow> int \<Rightarrow> error + real" where
  "compute_optimal_stretch_ratio decimal_exponent start endv width ratio precision =
     compute_optimal_loop \<bar>endv - start\<bar> width precision (decimal_exponent ratio) ratio"

definition get_stretch_ratio ::
  "(real \<Rightarrow> int) \<Rightarrow> real \<Rightarrow> real \<Rightarrow> real \<Rightarrow> real \<Rightarrow> real \<Rightarrow> int \<Rightarrow> error + real" where
  "get_stretch_ratio decimal_exponent start endv width stretch_ratio aspect_ratio precision =
     (if 1 / 10 ^ 6 < \<bar>stretch_ratio - 1\<bar> then
        compute_optimal_stretch_ratio decimal_exponent start endv width stretch_ratio precision
      else if 1 / 10 ^ 6 < \<bar>aspect_ratio - 1\<bar> then
        (case compute_stretch_ratio start endv width aspect_ratio precision of
           Inl e \<Rightarrow> Inl e
         | Inr ratio \<Rightarrow>
             compute_optimal_stretch_ratio decimal_exponent start endv width ratio precision)
      else Inr 1)"

subsection \<open>The two searches as the specification words them\<close>







declare compute_stretch_ratio_loop.simps [simp del]
declare compute_optimal_loop.simps [simp del]

subsection \<open>Segment and GridLine\<close>

text \<open>
  The attributes a segment created from YAML data carries; a segment created from
  vertices has none of them.
\<close>

record segment_attributes =
  seg_start :: real
  seg_end :: real
  seg_width :: real
  seg_stretch_ratio :: real
  seg_aspect_ratio :: real

record segment =
  seg_attributes :: "segment_attributes option"
  seg_vertices :: "real list"
  seg_nb_divisions :: int

text \<open>
  A node of \<open>subDomains\<close> as \<open>GridLine.create_from_yaml_data\<close> hands it to \<open>Segment\<close>:
  the start stored, the defaults set.
\<close>

record subdomain =
  sd_start :: real
  sd_end :: real
  sd_width :: real
  sd_stretchRatio :: real
  sd_aspectRatio :: real
  sd_precision :: int
  sd_reverse :: bool

text \<open>\<open>Segment.create_from_yaml_data\<close>: the attributes and the vertices.\<close>

definition segment_from_yaml_data ::
  "(real \<Rightarrow> int) \<Rightarrow> subdomain \<Rightarrow> error + (segment_attributes \<times> real list)" where
  "segment_from_yaml_data decimal_exponent data =
     (case get_stretch_ratio decimal_exponent (sd_start data) (sd_end data) (sd_width data)
             (sd_stretchRatio data) (sd_aspectRatio data) (sd_precision data) of
        Inl e \<Rightarrow> Inl e
      | Inr ratio \<Rightarrow>
          (case get_vertices (sd_start data) (sd_end data) (sd_width data) ratio
                  (sd_reverse data) of
             Inl e \<Rightarrow> Inl e
           | Inr (vertices, aspect_ratio, stretch_ratio) \<Rightarrow>
               Inr (\<lparr>seg_start = sd_start data, seg_end = sd_end data,
                      seg_width = sd_width data, seg_stretch_ratio = stretch_ratio,
                      seg_aspect_ratio = aspect_ratio\<rparr>, vertices)))"

text \<open>
  \<open>Segment.__init__(data, vertices)\<close>. A dictionary of data is true. \<open>numpy.all(None)\<close>
  is false, and so is \<open>numpy.all\<close> of an array that holds a zero: then neither branch
  stores \<open>self.vertices\<close>, and \<open>self.vertices.size\<close> raises \<open>AttributeError\<close>.
\<close>

definition Segment_init ::
  "(real \<Rightarrow> int) \<Rightarrow> subdomain option \<Rightarrow> real list option \<Rightarrow> error + segment" where
  "Segment_init decimal_exponent data vertices =
     (case data of
        Some d \<Rightarrow>
          (case segment_from_yaml_data decimal_exponent d of
             Inl e \<Rightarrow> Inl e
           | Inr (attributes, vs) \<Rightarrow>
               Inr \<lparr>seg_attributes = Some attributes, seg_vertices = vs,
                    seg_nb_divisions = int (length vs) - 1\<rparr>)
      | None \<Rightarrow>
          (case vertices of
             None \<Rightarrow> Inl AttributeError
           | Some vs \<Rightarrow>
               if numpy_all vs
               then Inr \<lparr>seg_attributes = None, seg_vertices = vs,
                         seg_nb_divisions = int (length vs) - 1\<rparr>
               else Inl AttributeError))"

record gridline =
  gl_label :: "string option"
  gl_start :: "real option"
  gl_end :: "real option"
  gl_segments :: "segment list"
  gl_nb_divisions :: int

text \<open>The YAML data of a gridline, and of one of its sub-domains, as the user writes them.\<close>

record yaml_subdomain =
  y_end :: real
  y_width :: real
  y_stretchRatio :: "real option"
  y_aspectRatio :: "real option"
  y_precision :: "int option"
  y_reverse :: "bool option"

record yaml_gridline =
  y_direction :: string
  y_start :: real
  y_subDomains :: "yaml_subdomain list"

text \<open>The body of the loop of \<open>GridLine.create_from_yaml_data\<close> before the segment is created.\<close>

definition set_defaults :: "real \<Rightarrow> yaml_subdomain \<Rightarrow> subdomain" where
  "set_defaults start node =
     \<lparr>sd_start = start, sd_end = y_end node, sd_width = y_width node,
      sd_stretchRatio = (case y_stretchRatio node of None \<Rightarrow> 1 | Some r \<Rightarrow> r),
      sd_aspectRatio = (case y_aspectRatio node of None \<Rightarrow> 1 | Some r \<Rightarrow> r),
      sd_precision = (case y_precision node of None \<Rightarrow> 6 | Some p \<Rightarrow> p),
      sd_reverse = (case y_reverse node of None \<Rightarrow> False | Some b \<Rightarrow> b)\<rparr>"

text \<open>
  The loop over the sub-domains: the first starts at the start of the gridline, each
  later one at the end of the one before; the first exception ends the loop.
\<close>

fun create_segments ::
  "(real \<Rightarrow> int) \<Rightarrow> real \<Rightarrow> yaml_subdomain list \<Rightarrow> error + segment list" where
  "create_segments decimal_exponent start [] = Inr []"
| "create_segments decimal_exponent start (node # nodes) =
     (case Segment_init decimal_exponent (Some (set_defaults start node)) None of
        Inl e \<Rightarrow> Inl e
      | Inr s \<Rightarrow>
          (case create_segments decimal_exponent (y_end node) nodes of
             Inl e \<Rightarrow> Inl e
           | Inr ss \<Rightarrow> Inr (s # ss)))"

text \<open>
  \<open>GridLine.__init__(data, vertices, label)\<close>. \<open>data['subDomains'][-1]\<close> of an empty list
  and \<open>vertices[0]\<close> of an empty array raise \<open>IndexError\<close>. Where the array of vertices
  holds a zero \<open>numpy.all\<close> is false: no segment is created, and the constructor returns
  a gridline without segments, start or end.
\<close>

definition GridLine_init ::
  "(real \<Rightarrow> int) \<Rightarrow> yaml_gridline option \<Rightarrow> real list option \<Rightarrow> string option
     \<Rightarrow> error + gridline" where
  "GridLine_init decimal_exponent data vertices label =
     (case data of
        Some d \<Rightarrow>
          (if y_subDomains d = [] then Inl IndexError
           else
             (case create_segments decimal_exponent (y_start d) (y_subDomains d) of
                Inl e \<Rightarrow> Inl e
              | Inr segments \<Rightarrow>
                  Inr \<lparr>gl_label = Some (y_direction d), gl_start = Some (y_start d),
                       gl_end = Some (y_end (last (y_subDomains d))),
                       gl_segments = segments,
                       gl_nb_divisions = sum_list (map seg_nb_divisions segments)\<rparr>))
      | None \<Rightarrow>
          (case vertices of
             None \<Rightarrow>
               Inr \<lparr>gl_label = label, gl_start = None, gl_end = None, gl_segments = [],
                    gl_nb_divisions = sum_list (map seg_nb_divisions ([] :: segment list))\<rparr>
           | Some vs \<Rightarrow>
               if numpy_all vs then
                 (if vs = [] then Inl IndexError
                  else
                    (case Segment_init decimal_exponent None (Some vs) of
                       Inl e \<Rightarrow> Inl e
                     | Inr s \<Rightarrow>
                         Inr \<lparr>gl_label = label, gl_start = Some (hd vs),
                              gl_end = Some (last vs), gl_segments = [s],
                              gl_nb_divisions = sum_list (map seg_nb_divisions [s])\<rparr>))
               else
                 Inr \<lparr>gl_label = label, gl_start = None, gl_end = None, gl_segments = [],
                      gl_nb_divisions = sum_list (map seg_nb_divisions ([] :: segment list))\<rparr>))"

text \<open>\<open>GridLine.get_vertices(precision)\<close>.\<close>

definition gridline_get_vertices :: "gridline \<Rightarrow> int \<Rightarrow> error + real list" where
  "gridline_get_vertices g precision =
     (case numpy_concatenate
             (map (\<lambda>s. map (numpy_round precision) (seg_vertices s)) (gl_segments g)) of
        Inl e \<Rightarrow> Inl e
      | Inr vs \<Rightarrow> Inr (numpy_unique vs))"

subsection \<open>CartesianStructuredMesh\<close>

record mesh =
  gridlines :: "gridline list"

definition empty_mesh :: mesh where
  "empty_mesh = \<lparr>gridlines = []\<rparr>"

text \<open>\<open>get_number_cells\<close>: the loop appends to \<open>nb_divisions\<close>; the total is a \<open>reduce\<close>.\<close>

definition get_number_cells :: "mesh \<Rightarrow> int \<times> int list" where
  "get_number_cells m =
     (let nb_divisions = fold (\<lambda>g acc. acc @ [gl_nb_divisions g]) (gridlines m) []
      in (reduce (*) nb_divisions 1, nb_divisions))"

text \<open>\<open>create(data)\<close>: a gridline for each node, appended in order.\<close>

fun create :: "(real \<Rightarrow> int) \<Rightarrow> mesh \<Rightarrow> yaml_gridline list \<Rightarrow> error + mesh" where
  "create decimal_exponent m [] = Inr m"
| "create decimal_exponent m (node # nodes) =
     (case GridLine_init decimal_exponent (Some node) None None of
        Inl e \<Rightarrow> Inl e
      | Inr g \<Rightarrow> create decimal_exponent (m\<lparr>gridlines := gridlines m @ [g]\<rparr>) nodes)"

text \<open>
  The grid file: the integers of its first line, the floats of the lines after it.
  The text of a number is taken to read back as the number (\<open>savetxt\<close> writes a float
  with 18 decimal places of its mantissa).
\<close>

record grid_file =
  header :: "int list"
  body :: "real list"

text \<open>The loop of \<open>write\<close> over the gridlines: the lines written after the header.\<close>

fun write_gridlines :: "gridline list \<Rightarrow> int \<Rightarrow> error + real list" where
  "write_gridlines [] precision = Inr []"
| "write_gridlines (g # gs) precision =
     (case gridline_get_vertices g precision of
        Inl e \<Rightarrow> Inl e
      | Inr vs \<Rightarrow>
          (case write_gridlines gs precision of
             Inl e \<Rightarrow> Inl e
           | Inr rest \<Rightarrow> Inr (vs @ rest)))"

text \<open>
  \<open>CartesianStructuredMesh.write\<close>: the file it leaves when no \<open>get_vertices\<close> raises,
  the division counts on the first line and the vertices of the gridlines after it.
\<close>

definition mesh_write :: "mesh \<Rightarrow> int \<Rightarrow> error + grid_file" where
  "mesh_write m precision =
     (let nb_cells_directions = snd (get_number_cells m) in
      case write_gridlines (gridlines m) precision of
        Inl e \<Rightarrow> Inl e
      | Inr lines \<Rightarrow> Inr \<lparr>header = nb_cells_directions, body = lines\<rparr>)"

text \<open>
  The loop of \<open>read\<close> over the pieces of the data, from the index reached:
  \<open>labels[index]\<close> raises \<open>IndexError\<close> from the fourth piece on.
\<close>

definition labels :: "string list" where
  "labels = [''x'', ''y'', ''z'']"

fun read_gridlines ::
  "(real \<Rightarrow> int) \<Rightarrow> mesh \<Rightarrow> nat \<Rightarrow> real list list \<Rightarrow> error + mesh" where
  "read_gridlines decimal_exponent m index [] = Inr m"
| "read_gridlines decimal_exponent m index (vertices_gridline # rest) =
     (if length labels \<le> index then Inl IndexError
      else
        (case GridLine_init decimal_exponent None (Some vertices_gridline)
                (Some (labels ! index)) of
           Inl e \<Rightarrow> Inl e
         | Inr g \<Rightarrow>
             read_gridlines decimal_exponent (m\<lparr>gridlines := gridlines m @ [g]\<rparr>)
               (Suc index) rest))"

text \<open>
  \<open>CartesianStructuredMesh.read\<close>. \<open>numpy.loadtxt\<close> returns a 0-dimensional array for
  a single value, on which \<open>numpy.split\<close> raises \<open>IndexError\<close>. The data are split at
  the cumulative sums of \<open>nb_divisions[:-1]+1\<close>; the pieces, of equal lengths or not, are
  the rows of the array the loop runs over.
\<close>

definition mesh_read :: "(real \<Rightarrow> int) \<Rightarrow> mesh \<Rightarrow> grid_file \<Rightarrow> error + mesh" where
  "mesh_read decimal_exponent m file =
     (let nb_divisions = header file;
          vertices = body file
      in if length vertices = 1 then Inl IndexError
         else read_gridlines decimal_exponent m 0
                (numpy_split vertices
                   (numpy_cumsum (map (\<lambda>n. n + 1) (butlast nb_divisions)))))"

section \<open>Properties\<close>

subsection \<open>The number of cells\<close>

lemma fold_append_map: "fold (\<lambda>g acc. acc @ [f g]) gs acc = acc @ map f gs"
  by (induction gs arbitrary: acc) simp_all

lemma foldl_times_prod_list: "foldl (*) a xs = a * prod_list (xs :: int list)"
  by (induction xs arbitrary: a) (simp_all add: mult.assoc)

text \<open>
  Claim C7. \<open>get_number_cells\<close> returns the list of the gridlines' \<open>nb_divisions\<close>, in
  order, with the product of that list as the total; for the empty mesh the total is 1
  and the list is empty.
\<close>

theorem get_number_cells_product:
  "get_number_cells m =
     (prod_list (map gl_nb_divisions (gridlines m)), map gl_nb_divisions (gridlines m))
   \<and> get_number_cells empty_mesh = (1, [])"
  by (simp add: get_number_cells_def reduce_def fold_append_map foldl_times_prod_list
      empty_mesh_def Let_def)

subsection \<open>Construction from vertices\<close>

lemma numpy_all_iff: "numpy_all vs \<longleftrightarrow> 0 \<notin> set vs"
  by (auto simp: numpy_all_def list_all_iff)

lemma numpy_split_no_indices: "numpy_split vs [] = [vs]"
  by (simp add: numpy_split_def py_slice_def slice_index_def)

lemma GridLine_init_vertices:
  "0 \<notin> set vs \<Longrightarrow> vs \<noteq> [] \<Longrightarrow>
   GridLine_init decimal_exponent None (Some vs) label =
     Inr \<lparr>gl_label = label, gl_start = Some (hd vs), gl_end = Some (last vs),
          gl_segments = [\<lparr>seg_attributes = None, seg_vertices = vs,
                           seg_nb_divisions = int (length vs) - 1\<rparr>],
          gl_nb_divisions = int (length vs) - 1\<rparr>"
  by (simp add: GridLine_init_def Segment_init_def numpy_all_iff)

lemma Segment_init_nb_divisions:
  "Segment_init decimal_exponent data vertices = Inr s \<Longrightarrow>
     seg_nb_divisions s = int (length (seg_vertices s)) - 1"
  by (auto simp: Segment_init_def split: option.splits sum.splits if_splits)

lemma create_segments_nb_divisions:
  "create_segments decimal_exponent start nodes = Inr segments \<Longrightarrow> s \<in> set segments \<Longrightarrow>
     seg_nb_divisions s = int (length (seg_vertices s)) - 1"
  by (induction nodes arbitrary: start segments)
     (auto split: sum.splits dest: Segment_init_nb_divisions)

lemma GridLine_init_nb_divisions:
  "GridLine_init decimal_exponent data vertices label = Inr g \<Longrightarrow>
     gl_nb_divisions g = sum_list (map seg_nb_divisions (gl_segments g))
   \<and> (\<forall>s \<in> set (gl_segments g). seg_nb_divisions s = int (length (seg_vertices s)) - 1)"
  by (auto simp: GridLine_init_def split: option.splits sum.splits if_splits
      dest: Segment_init_nb_divisions create_segments_nb_divisions)

lemma GridLine_init_zero:
  "0 \<in> set vs \<Longrightarrow>
   GridLine_init decimal_exponent None (Some vs) label =
     Inr \<lparr>gl_label = label, gl_start = None, gl_end = None, gl_segments = [],
          gl_nb_divisions = 0\<rparr>"
  by (simp add: GridLine_init_def numpy_all_iff)

lemma read_gridlines_returns:
  "index + length vss \<le> 3 \<Longrightarrow> [] \<notin> set vss \<Longrightarrow>
   \<exists>gs. read_gridlines decimal_exponent m index vss = Inr (m\<lparr>gridlines := gridlines m @ gs\<rparr>)
      \<and> length gs = length vss
      \<and> (\<forall>i < length vss. 0 \<in> set (vss ! i) \<longrightarrow>
            gs ! i = \<lparr>gl_label = Some (labels ! (index + i)), gl_start = None, gl_end = None,
                      gl_segments = [], gl_nb_divisions = 0\<rparr>)"
proof (induction vss arbitrary: m index)
  case Nil
  then show ?case by (intro exI [of _ "[]"]) simp
next
  case (Cons vs vss)
  have idx: "index < length labels"
    using Cons.prems(1) by (simp add: labels_def)
  have ne: "vs \<noteq> []"
    using Cons.prems(2) by auto
  obtain g where g: "GridLine_init decimal_exponent None (Some vs) (Some (labels ! index)) = Inr g"
    and gz: "0 \<in> set vs \<longrightarrow> g = \<lparr>gl_label = Some (labels ! index), gl_start = None,
        gl_end = None, gl_segments = [], gl_nb_divisions = 0\<rparr>"
  proof (cases "0 \<in> set vs")
    case True
    then show ?thesis
      using that by (simp add: GridLine_init_zero)
  next
    case False
    then show ?thesis
      using that ne by (simp add: GridLine_init_vertices)
  qed
  obtain gs where gs:
    "read_gridlines decimal_exponent (m\<lparr>gridlines := gridlines m @ [g]\<rparr>) (Suc index) vss =
       Inr (m\<lparr>gridlines := (gridlines m @ [g]) @ gs\<rparr>)"
    "length gs = length vss"
    "\<forall>i < length vss. 0 \<in> set (vss ! i) \<longrightarrow>
       gs ! i = \<lparr>gl_label = Some (labels ! (Suc index + i)), gl_start = None, gl_end = None,
                 gl_segments = [], gl_nb_divisions = 0\<rparr>"
    using Cons.IH [of "Suc index" "m\<lparr>gridlines := gridlines m @ [g]\<rparr>"] Cons.prems by auto
  have "\<forall>i < length (vs # vss). 0 \<in> set ((vs # vss) ! i) \<longrightarrow>
      (g # gs) ! i = \<lparr>gl_label = Some (labels ! (index + i)), gl_start = None, gl_end = None,
                      gl_segments = [], gl_nb_divisions = 0\<rparr>"
  proof (intro allI impI)
    fix i assume "i < length (vs # vss)" and "0 \<in> set ((vs # vss) ! i)"
    then show "(g # gs) ! i = \<lparr>gl_label = Some (labels ! (index + i)), gl_start = None,
        gl_end = None, gl_segments = [], gl_nb_divisions = 0\<rparr>"
      using gz gs(3) by (cases i) simp_all
  qed
  then show ?case
    using idx g gs(1,2) by (intro exI [of _ "g # gs"]) simp
qed

text \<open>
  Claim C10, as the code has it. For an array of vertices that holds a zero the guard
  \<open>numpy.all(vertices)\<close> is false. \<open>Segment\<close> then raises \<open>AttributeError\<close>. \<open>GridLine\<close>
  does not raise: it returns a gridline with no segment, no start and no end, and
  \<open>nb_divisions = 0\<close>. \<open>read\<close> does not fail on a zero either: for a file whose data
  (not a single value) split into at most three pieces, none empty, it returns a mesh
  with a gridline for each piece, and the gridline of a piece that holds a zero is that
  gridline without segments.
\<close>

theorem zero_vertex_constructors:
  "(0 \<in> set vs \<longrightarrow>
      Segment_init decimal_exponent None (Some vs) = Inl AttributeError
    \<and> GridLine_init decimal_exponent None (Some vs) label =
        Inr \<lparr>gl_label = label, gl_start = None, gl_end = None, gl_segments = [],
             gl_nb_divisions = 0\<rparr>)
   \<and> (length (body gf) \<noteq> 1
       \<and> numpy_split (body gf) (numpy_cumsum (map (\<lambda>n. n + 1) (butlast (header gf))))
           = pieces
       \<and> length pieces \<le> 3 \<and> [] \<notin> set pieces \<longrightarrow>
        (\<exists>gs. mesh_read decimal_exponent empty_mesh gf = Inr \<lparr>gridlines = gs\<rparr>
           \<and> length gs = length pieces
           \<and> (\<forall>i < length pieces. 0 \<in> set (pieces ! i) \<longrightarrow>
                 gs ! i = \<lparr>gl_label = Some (labels ! i), gl_start = None, gl_end = None,
                           gl_segments = [], gl_nb_divisions = 0\<rparr>)))"
proof -
  have a: "Segment_init decimal_exponent None (Some vs) = Inl AttributeError"
    if "0 \<in> set vs"
    using that by (simp add: Segment_init_def numpy_all_iff)
  have b: "\<exists>gs. mesh_read decimal_exponent empty_mesh gf = Inr \<lparr>gridlines = gs\<rparr>
           \<and> length gs = length pieces
           \<and> (\<forall>i < length pieces. 0 \<in> set (pieces ! i) \<longrightarrow>
                 gs ! i = \<lparr>gl_label = Some (labels ! i), gl_start = None, gl_end = None,
                           gl_segments = [], gl_nb_divisions = 0\<rparr>)"
    if "length (body gf) \<noteq> 1"
      and "numpy_split (body gf) (numpy_cumsum (map (\<lambda>n. n + 1) (butlast (header gf))))
           = pieces"
      and "length pieces \<le> 3" and "[] \<notin> set pieces"
    using read_gridlines_returns [of 0 pieces decimal_exponent empty_mesh] that
    by (simp add: mesh_read_def Let_def empty_mesh_def)
  from a b show ?thesis
    by (simp add: GridLine_init_zero)
qed

theorem zero_vertex_constructors_witness:
  "Segment_init (\<lambda>r. 1) None (Some [0, 1]) = Inl AttributeError
   \<and> GridLine_init (\<lambda>r. 1) None (Some [0, 1]) (Some ''x'') =
       Inr \<lparr>gl_label = Some ''x'', gl_start = None, gl_end = None, gl_segments = [],
            gl_nb_divisions = 0\<rparr>
   \<and> (\<exists>gs. mesh_read (\<lambda>r. 1) empty_mesh \<lparr>header = [1, 1], body = [0, 1, 2, 3]\<rparr> =
          Inr \<lparr>gridlines = gs\<rparr>
        \<and> length gs = 2
        \<and> gs ! 0 = \<lparr>gl_label = Some ''x'', gl_start = None, gl_end = None,
                     gl_segments = [], gl_nb_divisions = 0\<rparr>)"
proof -
  let ?file = "\<lparr>header = [1, 1], body = [0, 1, 2, 3 :: real]\<rparr>"
  let ?pieces = "[[0, 1], [2, 3 :: real]]"
  have z: "(0::real) \<in> set [0, 1]"
    by simp
  have p: "length (body ?file) \<noteq> 1
       \<and> numpy_split (body ?file) (numpy_cumsum (map (\<lambda>n. n + 1) (butlast (header ?file))))
           = ?pieces
       \<and> length ?pieces \<le> 3 \<and> [] \<notin> set ?pieces"
    by (simp add: numpy_split_def numpy_cumsum_def py_slice_def slice_index_def)
  have i: "0 < length ?pieces \<and> 0 \<in> set (?pieces ! 0)"
    by simp
  show ?thesis
    using zero_vertex_constructors
      [where vs = "[0, 1]" and decimal_exponent = "\<lambda>r. 1" and label = "Some ''x''"
        and gf = ?file and pieces = ?pieces] z p i
    by (auto simp: labels_def)
qed

text \<open>
  Claim C10 as stated fails: on the vertices \<open>[0.0, 1.0]\<close> the constructor of \<open>GridLine\<close>
  returns, and \<open>read\<close> of the file with header \<open>1\<close> and these data returns too.
\<close>

theorem zero_vertex_gridline_returns:
  "GridLine_init (\<lambda>r. 1) None (Some [0, 1]) (Some ''x'') \<noteq> Inl AttributeError
   \<and> mesh_read (\<lambda>r. 1) empty_mesh \<lparr>header = [1], body = [0, 1]\<rparr> =
       Inr \<lparr>gridlines = [\<lparr>gl_label = Some ''x'', gl_start = None, gl_end = None,
                            gl_segments = [], gl_nb_divisions = 0\<rparr>]\<rparr>"
  by (simp add: GridLine_init_def numpy_all_def mesh_read_def numpy_cumsum_def
      numpy_split_no_indices labels_def empty_mesh_def)

subsection \<open>Reading a grid file\<close>

text \<open>
  Claim C9 as stated fails: a file whose header announces 2 divisions (3 vertices) and
  whose data hold 5 values is read without an error, into a gridline of 4 divisions.
\<close>

theorem read_mismatch_accepted:
  "mesh_read (\<lambda>r. 1) empty_mesh \<lparr>header = [2], body = [1, 2, 3, 4, 5]\<rparr> =
     Inr \<lparr>gridlines =
       [\<lparr>gl_label = Some ''x'', gl_start = Some 1, gl_end = Some 5,
         gl_segments = [\<lparr>seg_attributes = None, seg_vertices = [1, 2, 3, 4, 5],
                          seg_nb_divisions = 4\<rparr>],
         gl_nb_divisions = 4\<rparr>]\<rparr>"
  by (simp add: GridLine_init_def Segment_init_def numpy_all_def mesh_read_def numpy_cumsum_def
      numpy_split_no_indices labels_def empty_mesh_def)

text \<open>
  Claim C9, as the code has it. \<open>read\<close> compares no count with the length of the data.
  The last count of the header is never used: two files that differ in it alone are read
  alike. For a header of one count the gridline takes all the data (two values or more,
  none of them zero), whatever the count. And whatever the counts, \<open>read\<close> returns a
  mesh, one gridline for each piece, when the data (not a single value) split at the
  cumulative sums of the counts plus one into at most three pieces, none empty.
\<close>

theorem read_ignores_last_count:
  "mesh_read decimal_exponent m \<lparr>header = counts @ [k], body = vs\<rparr> =
     mesh_read decimal_exponent m \<lparr>header = counts @ [k'], body = vs\<rparr>
   \<and> (0 \<notin> set vs \<and> 2 \<le> length vs \<longrightarrow>
        mesh_read decimal_exponent empty_mesh \<lparr>header = [k], body = vs\<rparr> =
          Inr \<lparr>gridlines =
            [\<lparr>gl_label = Some ''x'', gl_start = Some (hd vs), gl_end = Some (last vs),
              gl_segments = [\<lparr>seg_attributes = None, seg_vertices = vs,
                               seg_nb_divisions = int (length vs) - 1\<rparr>],
              gl_nb_divisions = int (length vs) - 1\<rparr>]\<rparr>)
   \<and> (length (body gf) \<noteq> 1
       \<and> numpy_split (body gf) (numpy_cumsum (map (\<lambda>n. n + 1) (butlast (header gf))))
           = pieces
       \<and> length pieces \<le> 3 \<and> [] \<notin> set pieces \<longrightarrow>
        (\<exists>gs. mesh_read decimal_exponent empty_mesh gf = Inr \<lparr>gridlines = gs\<rparr>
           \<and> length gs = length pieces))"
proof -
  have a: "mesh_read decimal_exponent m \<lparr>header = counts @ [k], body = vs\<rparr> =
     mesh_read decimal_exponent m \<lparr>header = counts @ [k'], body = vs\<rparr>"
    by (simp add: mesh_read_def)
  have b: "mesh_read decimal_exponent empty_mesh \<lparr>header = [k], body = vs\<rparr> =
          Inr \<lparr>gridlines =
            [\<lparr>gl_label = Some ''x'', gl_start = Some (hd vs), gl_end = Some (last vs),
              gl_segments = [\<lparr>seg_attributes = None, seg_vertices = vs,
                               seg_nb_divisions = int (length vs) - 1\<rparr>],
              gl_nb_divisions = int (length vs) - 1\<rparr>]\<rparr>"
    if "0 \<notin> set vs" and "2 \<le> length vs"
    using that
    by (auto simp: GridLine_init_def Segment_init_def numpy_all_iff mesh_read_def
        numpy_cumsum_def numpy_split_no_indices labels_def empty_mesh_def)
  have c: "\<exists>gs. mesh_read decimal_exponent empty_mesh gf = Inr \<lparr>gridlines = gs\<rparr>
           \<and> length gs = length pieces"
    if len: "length (body gf) \<noteq> 1"
      and split: "numpy_split (body gf)
          (numpy_cumsum (map (\<lambda>n. n + 1) (butlast (header gf)))) = pieces"
      and three: "length pieces \<le> 3" and ne: "[] \<notin> set pieces"
  proof -
    obtain gs where "read_gridlines decimal_exponent empty_mesh 0 pieces =
          Inr (empty_mesh\<lparr>gridlines := gridlines empty_mesh @ gs\<rparr>)"
      and "length gs = length pieces"
      using read_gridlines_returns [of 0 pieces decimal_exponent empty_mesh] three ne by auto
    then show ?thesis
      using len split by (simp add: mesh_read_def Let_def empty_mesh_def)
  qed
  from a b c show ?thesis
    by blast
qed

theorem read_ignores_last_count_witness:
  "mesh_read (\<lambda>r. 1) empty_mesh \<lparr>header = [] @ [2], body = [1, 2, 3, 4, 5]\<rparr> =
       mesh_read (\<lambda>r. 1) empty_mesh \<lparr>header = [] @ [4], body = [1, 2, 3, 4, 5]\<rparr>
   \<and> mesh_read (\<lambda>r. 1) empty_mesh \<lparr>header = [2], body = [1, 2, 3, 4, 5]\<rparr> =
          Inr \<lparr>gridlines =
            [\<lparr>gl_label = Some ''x'', gl_start = Some 1, gl_end = Some 5,
              gl_segments = [\<lparr>seg_attributes = None, seg_vertices = [1, 2, 3, 4, 5],
                               seg_nb_divisions = 4\<rparr>],
              gl_nb_divisions = 4\<rparr>]\<rparr>
   \<and> (\<exists>gs. mesh_read (\<lambda>r. 1) empty_mesh \<lparr>header = [1, 7], body = [1, 2, 3, 4, 5]\<rparr> =
          Inr \<lparr>gridlines = gs\<rparr> \<and> length gs = 2)"
proof -
  let ?gf = "\<lparr>header = [1, 7], body = [1, 2, 3, 4, 5 :: real]\<rparr>"
  let ?pieces = "[[1, 2], [3, 4, 5 :: real]]"
  have v: "0 \<notin> set [1, 2, 3, 4, 5 :: real] \<and> 2 \<le> length [1, 2, 3, 4, 5 :: real]"
    by simp
  have p: "length (body ?gf) \<noteq> 1
       \<and> numpy_split (body ?gf) (numpy_cumsum (map (\<lambda>n. n + 1) (butlast (header ?gf))))
           = ?pieces
       \<and> length ?pieces \<le> 3 \<and> [] \<notin> set ?pieces"
    by (simp add: numpy_split_def numpy_cumsum_def py_slice_def slice_index_def)
  show ?thesis
    using read_ignores_last_count
      [where decimal_exponent = "\<lambda>r. 1" and m = empty_mesh and counts = "[]" and k = 2
        and vs = "[1, 2, 3, 4, 5]" and k' = 4 and gf = ?gf and pieces = ?pieces] v p
    by auto
qed

subsection \<open>The vertices of a gridline\<close>

lemma rint_of_int: "rint (of_int k) = k"
  by (simp add: rint_def)

lemma numpy_round_idem: "numpy_round p (numpy_round p x) = numpy_round p x"
  by (simp add: numpy_round_def rint_of_int)

lemma numpy_unique_sorted_distinct: "sorted (numpy_unique xs) \<and> distinct (numpy_unique xs)"
  by (simp add: numpy_unique_def)

lemma numpy_unique_set: "set (numpy_unique xs) = set xs"
  by (simp add: numpy_unique_def)

lemma numpy_unique_id: "sorted xs \<Longrightarrow> distinct xs \<Longrightarrow> numpy_unique xs = xs"
  by (simp add: numpy_unique_def sort_key_id_if_sorted)

lemma length_numpy_unique: "length (numpy_unique xs) = card (set xs)"
  by (simp add: numpy_unique_def length_remdups_card_conv)

lemma gridline_get_vertices_Inr:
  "gridline_get_vertices g p = Inr vs \<Longrightarrow>
     gl_segments g \<noteq> [] \<and>
     vs = numpy_unique (concat (map (\<lambda>s. map (numpy_round p) (seg_vertices s)) (gl_segments g)))"
  by (auto simp: gridline_get_vertices_def numpy_concatenate_def split: if_splits)

lemma count_list_distinct: "distinct xs \<Longrightarrow> x \<in> set xs \<Longrightarrow> count_list xs x = 1"
  by (induction xs) auto

text \<open>
  Claim C6 as stated fails: the gridline of the vertices 1.0000001, 1.0000002, 2.0 has 2
  divisions, and its \<open>get_vertices()\<close> (precision 6) has 2 values, one division.
\<close>

theorem gridline_rounding_merges:
  "GridLine_init (\<lambda>r. 1) None (Some [10000001 / 10000000, 10000002 / 10000000, 2])
       (Some ''x'') =
     Inr \<lparr>gl_label = Some ''x'', gl_start = Some (10000001 / 10000000), gl_end = Some 2,
          gl_segments =
            [\<lparr>seg_attributes = None,
               seg_vertices = [10000001 / 10000000, 10000002 / 10000000, 2],
               seg_nb_divisions = 2\<rparr>],
          gl_nb_divisions = 2\<rparr>
   \<and> gl_nb_divisions \<lparr>gl_label = Some ''x'', gl_start = Some (10000001 / 10000000), gl_end = Some 2,
          gl_segments =
            [\<lparr>seg_attributes = None,
               seg_vertices = [10000001 / 10000000, 10000002 / 10000000, 2],
               seg_nb_divisions = 2\<rparr>],
          gl_nb_divisions = 2\<rparr> = 2
   \<and> gridline_get_vertices \<lparr>gl_label = Some ''x'', gl_start = Some (10000001 / 10000000), gl_end = Some 2,
          gl_segments =
            [\<lparr>seg_attributes = None,
               seg_vertices = [10000001 / 10000000, 10000002 / 10000000, 2],
               seg_nb_divisions = 2\<rparr>],
          gl_nb_divisions = 2\<rparr> 6 = Inr [1, 2]
   \<and> int (length [1, 2 :: real]) - 1 \<noteq> gl_nb_divisions \<lparr>gl_label = Some ''x'', gl_start = Some (10000001 / 10000000), gl_end = Some 2,
          gl_segments =
            [\<lparr>seg_attributes = None,
               seg_vertices = [10000001 / 10000000, 10000002 / 10000000, 2],
               seg_nb_divisions = 2\<rparr>],
          gl_nb_divisions = 2\<rparr>"
  by (simp add: GridLine_init_def Segment_init_def numpy_all_def
      gridline_get_vertices_def numpy_concatenate_def numpy_round_def rint_def numpy_unique_def)

text \<open>
  Claim C6, as the code has it. For a gridline that its constructor returned,
  \<open>nb_divisions\<close> is the sum of the division counts of its segments. \<open>get_vertices\<close>
  returns the distinct rounded vertices in ascending order, as many as there are distinct
  rounded vertices in all segments; so a boundary value that two segments share appears
  once. For two segments whose rounded vertices are distinct within each segment and
  have the one value \<open>b\<close> in common, \<open>len(get_vertices()) - 1\<close> is \<open>nb_divisions\<close>.
\<close>

theorem gridline_vertices_dedup:
  assumes "GridLine_init decimal_exponent data vertices label = Inr g"
    and "gridline_get_vertices g p = Inr vs"
  shows "gl_nb_divisions g = sum_list (map seg_nb_divisions (gl_segments g))
    \<and> sorted vs \<and> distinct vs
    \<and> length vs = card (\<Union>s \<in> set (gl_segments g). numpy_round p ` set (seg_vertices s))
    \<and> (gl_segments g = [s1, s2]
          \<and> distinct (map (numpy_round p) (seg_vertices s1))
          \<and> distinct (map (numpy_round p) (seg_vertices s2))
          \<and> numpy_round p ` set (seg_vertices s1) \<inter> numpy_round p ` set (seg_vertices s2) = {b}
        \<longrightarrow> int (length vs) - 1 = gl_nb_divisions g \<and> count_list vs b = 1)"
proof -
  note init = GridLine_init_nb_divisions [OF assms(1)]
  let ?ws = "concat (map (\<lambda>s. map (numpy_round p) (seg_vertices s)) (gl_segments g))"
  have vs: "vs = numpy_unique ?ws"
    using gridline_get_vertices_Inr [OF assms(2)] by simp
  have sd: "sorted vs \<and> distinct vs"
    unfolding vs by (rule numpy_unique_sorted_distinct)
  have card: "length vs = card (\<Union>s \<in> set (gl_segments g). numpy_round p ` set (seg_vertices s))"
    unfolding vs length_numpy_unique by simp
  have two: "int (length vs) - 1 = gl_nb_divisions g \<and> count_list vs b = 1"
    if seg: "gl_segments g = [s1, s2]"
      and d1: "distinct (map (numpy_round p) (seg_vertices s1))"
      and d2: "distinct (map (numpy_round p) (seg_vertices s2))"
      and b: "numpy_round p ` set (seg_vertices s1) \<inter> numpy_round p ` set (seg_vertices s2) = {b}"
  proof -
    let ?A = "numpy_round p ` set (seg_vertices s1)" and ?B = "numpy_round p ` set (seg_vertices s2)"
    have cA: "card ?A = length (seg_vertices s1)"
      using distinct_card [OF d1] by simp
    have cB: "card ?B = length (seg_vertices s2)"
      using distinct_card [OF d2] by simp
    have "card (?A \<union> ?B) + card (?A \<inter> ?B) = card ?A + card ?B"
      using card_Un_Int [of ?A ?B] by simp
    then have "card (?A \<union> ?B) + 1 = length (seg_vertices s1) + length (seg_vertices s2)"
      using b cA cB by simp
    moreover have "length vs = card (?A \<union> ?B)"
      using card seg by simp
    moreover have "gl_nb_divisions g =
        int (length (seg_vertices s1)) - 1 + (int (length (seg_vertices s2)) - 1)"
      using init seg by simp
    ultimately have n: "int (length vs) - 1 = gl_nb_divisions g"
      by linarith
    have "b \<in> set vs"
      using b seg unfolding vs numpy_unique_set by auto
    then have "count_list vs b = 1"
      using sd by (simp add: count_list_distinct)
    with n show ?thesis ..
  qed
  from init sd card two show ?thesis
    by blast
qed

theorem gridline_vertices_dedup_witness:
  "\<exists>g vs. GridLine_init (\<lambda>r. 1)
         (Some \<lparr>y_direction = ''x'', y_start = 0, y_subDomains =
           [\<lparr>y_end = 1 / 2, y_width = 1 / 4, y_stretchRatio = None, y_aspectRatio = None,
              y_precision = None, y_reverse = None\<rparr>,
            \<lparr>y_end = 1, y_width = 1 / 4, y_stretchRatio = None, y_aspectRatio = None,
              y_precision = None, y_reverse = None\<rparr>]\<rparr>) None None = Inr g
     \<and> gridline_get_vertices g 6 = Inr vs
     \<and> vs = [0, 1 / 4, 1 / 2, 3 / 4, 1]
     \<and> gl_nb_divisions g = 4
     \<and> gl_nb_divisions g = sum_list (map seg_nb_divisions (gl_segments g))
     \<and> sorted vs \<and> distinct vs
     \<and> int (length vs) - 1 = gl_nb_divisions g \<and> count_list vs (1 / 2) = 1"
proof -
  let ?s1 = "\<lparr>seg_attributes = Some \<lparr>seg_start = 0, seg_end = 1 / 2, seg_width = 1 / 4,
        seg_stretch_ratio = 1, seg_aspect_ratio = 1\<rparr>,
      seg_vertices = [0, 1 / 4, 1 / 2], seg_nb_divisions = 2\<rparr>"
  let ?s2 = "\<lparr>seg_attributes = Some \<lparr>seg_start = 1 / 2, seg_end = 1, seg_width = 1 / 4,
        seg_stretch_ratio = 1, seg_aspect_ratio = 1\<rparr>,
      seg_vertices = [1 / 2, 3 / 4, 1], seg_nb_divisions = 2\<rparr>"
  let ?g = "\<lparr>gl_label = Some ''x'', gl_start = Some 0, gl_end = Some 1,
      gl_segments = [?s1, ?s2], gl_nb_divisions = 4\<rparr>"
  let ?vs = "[0, 1 / 4, 1 / 2, 3 / 4, 1 :: real]"
  have init: "GridLine_init (\<lambda>r. 1)
         (Some \<lparr>y_direction = ''x'', y_start = 0, y_subDomains =
           [\<lparr>y_end = 1 / 2, y_width = 1 / 4, y_stretchRatio = None, y_aspectRatio = None,
              y_precision = None, y_reverse = None\<rparr>,
            \<lparr>y_end = 1, y_width = 1 / 4, y_stretchRatio = None, y_aspectRatio = None,
              y_precision = None, y_reverse = None\<rparr>]\<rparr>) None None = Inr ?g"
    by (simp add: GridLine_init_def Segment_init_def segment_from_yaml_data_def
        set_defaults_def get_stretch_ratio_def get_vertices_def py_round_def numpy_arange_def
        upt_rec)
  have r1: "map (numpy_round 6) (seg_vertices ?s1) = [0, 1 / 4, 1 / 2]"
    by (simp add: numpy_round_def rint_def)
  have r2: "map (numpy_round 6) (seg_vertices ?s2) = [1 / 2, 3 / 4, 1]"
    by (simp add: numpy_round_def rint_def)
  have vs: "gridline_get_vertices ?g 6 = Inr ?vs"
    using r1 r2 by (simp add: gridline_get_vertices_def numpy_concatenate_def numpy_unique_def)
  have d1: "distinct (map (numpy_round 6) (seg_vertices ?s1))"
    unfolding r1 by simp
  have d2: "distinct (map (numpy_round 6) (seg_vertices ?s2))"
    unfolding r2 by simp
  have "set (map (numpy_round 6) (seg_vertices ?s1)) \<inter> set (map (numpy_round 6) (seg_vertices ?s2))
      = {1 / 2}"
    unfolding r1 r2 by simp
  then have b: "numpy_round 6 ` set (seg_vertices ?s1) \<inter> numpy_round 6 ` set (seg_vertices ?s2)
      = {1 / 2}"
    by simp
  have "gl_nb_divisions ?g = sum_list (map seg_nb_divisions (gl_segments ?g))
      \<and> sorted ?vs \<and> distinct ?vs
      \<and> int (length ?vs) - 1 = gl_nb_divisions ?g \<and> count_list ?vs (1 / 2) = 1"
    using gridline_vertices_dedup [OF init vs, where ?s1.0 = ?s1 and ?s2.0 = ?s2 and b = "1 / 2"]
      d1 d2 b
    by simp
  with init vs show ?thesis
    by (intro exI [of _ ?g] exI [of _ ?vs]) simp
qed

subsection \<open>Writing a mesh and reading it back\<close>

lemma py_slice_nat:
  "off + k \<le> length ary \<Longrightarrow> py_slice ary (int off) (int (off + k)) = take k (drop off ary)"
  by (simp add: py_slice_def slice_index_def Let_def nat_int_add)

lemma split_points_concat:
  "vss \<noteq> [] \<Longrightarrow> off \<le> length ary \<Longrightarrow> drop off ary = concat vss \<Longrightarrow>
   split_points ary
     (int off # cumsum_from (int off) (map (\<lambda>vs. int (length vs)) (butlast vss))
        @ [int (length ary)]) = vss"
proof (induction vss arbitrary: off)
  case Nil
  then show ?case by simp
next
  case (Cons vs vss)
  show ?case
  proof (cases vss)
    case Nil
    have "py_slice ary (int off) (int (off + (length ary - off))) = take (length ary - off) (drop off ary)"
      using Cons.prems(2) by (intro py_slice_nat) simp
    then have "py_slice ary (int off) (int (length ary)) = drop off ary"
      using Cons.prems(2) by simp
    with Nil Cons.prems(3) show ?thesis by simp
  next
    case (Cons ws wss)
    have len: "length ary - off = length vs + length (concat vss)"
      using Cons.prems(3) by (metis concat.simps(2) length_append length_drop)
    then have le: "off + length vs \<le> length ary"
      using Cons.prems(2) by linarith
    have first: "py_slice ary (int off) (int (off + length vs)) = vs"
      using py_slice_nat [OF le] Cons.prems(3) by simp
    have "drop (off + length vs) ary = drop (length vs) (drop off ary)"
      by (simp add: add.commute)
    then have rest: "drop (off + length vs) ary = concat vss"
      using Cons.prems(3) by simp
    have "split_points ary
       (int (off + length vs) #
          cumsum_from (int (off + length vs)) (map (\<lambda>vs. int (length vs)) (butlast vss))
          @ [int (length ary)]) = vss"
      using Cons.IH [OF _ le rest] Cons by simp
    with first Cons show ?thesis by simp
  qed
qed

lemma numpy_split_concat:
  assumes "vss \<noteq> []"
  shows "numpy_split (concat vss)
           (numpy_cumsum (map (\<lambda>n. n + 1) (butlast (map (\<lambda>vs. int (length vs) - 1) vss)))) = vss"
proof -
  have "map (\<lambda>n. n + 1) (butlast (map (\<lambda>vs. int (length vs) - 1) vss))
          = map (\<lambda>vs. int (length vs)) (butlast vss)"
    by (simp add: map_butlast [symmetric] comp_def)
  then show ?thesis
    using split_points_concat [OF assms, of 0 "concat vss"]
    by (simp add: numpy_split_def numpy_cumsum_def)
qed

lemma read_gridlines_vertices:
  "index + length vss \<le> 3 \<Longrightarrow> \<forall>vs \<in> set vss. 0 \<notin> set vs \<and> vs \<noteq> [] \<Longrightarrow>
   \<exists>gs. read_gridlines decimal_exponent m index vss = Inr (m\<lparr>gridlines := gridlines m @ gs\<rparr>)
      \<and> map gl_label gs = map Some (take (length vss) (drop index labels))
      \<and> map (\<lambda>g. map seg_vertices (gl_segments g)) gs = map (\<lambda>vs. [vs]) vss
      \<and> map gl_nb_divisions gs = map (\<lambda>vs. int (length vs) - 1) vss"
proof (induction vss arbitrary: m index)
  case Nil
  then show ?case by (intro exI [of _ "[]"]) simp
next
  case (Cons vs vss)
  let ?g = "\<lparr>gl_label = Some (labels ! index), gl_start = Some (hd vs), gl_end = Some (last vs),
          gl_segments = [\<lparr>seg_attributes = None, seg_vertices = vs,
                           seg_nb_divisions = int (length vs) - 1\<rparr>],
          gl_nb_divisions = int (length vs) - 1\<rparr>"
  have idx: "index < length labels"
    using Cons.prems(1) by (simp add: labels_def)
  have g: "GridLine_init decimal_exponent None (Some vs) (Some (labels ! index)) = Inr ?g"
    using Cons.prems(2) by (simp add: GridLine_init_vertices)
  obtain gs where gs:
    "read_gridlines decimal_exponent (m\<lparr>gridlines := gridlines m @ [?g]\<rparr>) (Suc index) vss =
       Inr (m\<lparr>gridlines := (gridlines m @ [?g]) @ gs\<rparr>)"
    "map gl_label gs = map Some (take (length vss) (drop (Suc index) labels))"
    "map (\<lambda>g. map seg_vertices (gl_segments g)) gs = map (\<lambda>vs. [vs]) vss"
    "map gl_nb_divisions gs = map (\<lambda>vs. int (length vs) - 1) vss"
    using Cons.IH [of "Suc index" "m\<lparr>gridlines := gridlines m @ [?g]\<rparr>"] Cons.prems by auto
  have "drop index labels = labels ! index # drop (Suc index) labels"
    using idx by (simp add: Cons_nth_drop_Suc)
  then have lab: "take (length (vs # vss)) (drop index labels) =
      labels ! index # take (length vss) (drop (Suc index) labels)"
    by simp
  show ?case
    using idx g gs lab by (intro exI [of _ "?g # gs"]) simp
qed

lemma gridline_get_vertices_reread:
  assumes "gridline_get_vertices g p = Inr vs"
    and "map seg_vertices (gl_segments g') = [vs]"
  shows "gridline_get_vertices g' p = Inr vs"
proof -
  let ?ws = "concat (map (\<lambda>s. map (numpy_round p) (seg_vertices s)) (gl_segments g))"
  have vs: "vs = numpy_unique ?ws"
    using gridline_get_vertices_Inr [OF assms(1)] by simp
  have "set vs \<subseteq> range (numpy_round p)"
    unfolding vs numpy_unique_set by auto
  then have "map (numpy_round p) vs = vs"
    by (intro map_idI) (auto simp: numpy_round_idem)
  moreover have "numpy_unique vs = vs"
    unfolding vs using numpy_unique_sorted_distinct [of ?ws] by (simp add: numpy_unique_id)
  moreover have "map (\<lambda>s. map (numpy_round p) (seg_vertices s)) (gl_segments g')
      = map (map (numpy_round p)) (map seg_vertices (gl_segments g'))"
    by simp
  ultimately show ?thesis
    using assms(2) by (simp add: gridline_get_vertices_def numpy_concatenate_def del: map_map)
qed

lemma write_gridlines_Inr:
  "map (\<lambda>g. gridline_get_vertices g p) gs = map Inr vss \<Longrightarrow> write_gridlines gs p = Inr (concat vss)"
  by (induction gs arbitrary: vss) auto

text \<open>
  Claim C1 as stated fails: the mesh of the one gridline with vertices 1.0000001,
  1.0000002, 2.0 has 2 divisions; written with precision 6 and read back, it has 1.
\<close>

theorem roundtrip_changes_divisions:
  "GridLine_init (\<lambda>r. 1) None (Some [10000001 / 10000000, 10000002 / 10000000, 2])
       (Some ''x'') =
     Inr \<lparr>gl_label = Some ''x'', gl_start = Some (10000001 / 10000000), gl_end = Some 2,
         gl_segments =
           [\<lparr>seg_attributes = None,
              seg_vertices = [10000001 / 10000000, 10000002 / 10000000, 2],
              seg_nb_divisions = 2\<rparr>],
         gl_nb_divisions = 2\<rparr>
   \<and> mesh_write \<lparr>gridlines = [\<lparr>gl_label = Some ''x'', gl_start = Some (10000001 / 10000000), gl_end = Some 2,
         gl_segments =
           [\<lparr>seg_attributes = None,
              seg_vertices = [10000001 / 10000000, 10000002 / 10000000, 2],
              seg_nb_divisions = 2\<rparr>],
         gl_nb_divisions = 2\<rparr>]\<rparr> 6 = Inr \<lparr>header = [2], body = [1, 2]\<rparr>
   \<and> mesh_read (\<lambda>r. 1) empty_mesh \<lparr>header = [2], body = [1, 2]\<rparr> =
       Inr \<lparr>gridlines =
         [\<lparr>gl_label = Some ''x'', gl_start = Some 1, gl_end = Some 2,
           gl_segments = [\<lparr>seg_attributes = None, seg_vertices = [1, 2],
                            seg_nb_divisions = 1\<rparr>],
           gl_nb_divisions = 1\<rparr>]\<rparr>"
  by (simp add: GridLine_init_def Segment_init_def numpy_all_def mesh_write_def
      get_number_cells_def gridline_get_vertices_def numpy_concatenate_def numpy_round_def
      rint_def numpy_unique_def mesh_read_def numpy_cumsum_def numpy_split_no_indices
      labels_def empty_mesh_def Let_def)

text \<open>
  Claim C1, as the code has it. Let a mesh have one to three gridlines, let \<open>vss\<close> be the
  arrays its gridlines return from \<open>get_vertices(precision)\<close>, none of them empty and none
  holding a zero, each with one value more than its gridline has divisions, and more
  than one value in all. Then \<open>write\<close> returns a file, \<open>read\<close> of that file into an empty
  mesh returns a mesh with one single-segment gridline for each array, in order and
  labelled x, y, z, whose stored vertices and whose \<open>get_vertices(precision)\<close> are that
  array, and whose division counts are those of the mesh written.
\<close>

theorem write_read_roundtrip:
  assumes "map (\<lambda>g. gridline_get_vertices g p) (gridlines m) = map Inr vss"
    and "gridlines m \<noteq> []" and "length (gridlines m) \<le> 3"
    and "\<forall>vs \<in> set vss. 0 \<notin> set vs \<and> vs \<noteq> []"
    and "map gl_nb_divisions (gridlines m) = map (\<lambda>vs. int (length vs) - 1) vss"
    and "length (concat vss) \<noteq> 1"
  shows "\<exists>f m'. mesh_write m p = Inr f \<and> mesh_read decimal_exponent empty_mesh f = Inr m'
      \<and> map (\<lambda>g. map seg_vertices (gl_segments g)) (gridlines m') = map (\<lambda>vs. [vs]) vss
      \<and> map (\<lambda>g. gridline_get_vertices g p) (gridlines m') = map Inr vss
      \<and> map gl_nb_divisions (gridlines m') = map gl_nb_divisions (gridlines m)
      \<and> map gl_label (gridlines m') = map Some (take (length (gridlines m)) labels)"
proof -
  have len: "length vss = length (gridlines m)"
    using assms(1) by (metis length_map)
  then have ne: "vss \<noteq> []"
    using assms(2) by auto
  let ?f = "\<lparr>header = map gl_nb_divisions (gridlines m), body = concat vss\<rparr>"
  have w: "mesh_write m p = Inr ?f"
    using write_gridlines_Inr [OF assms(1)]
    by (simp add: mesh_write_def get_number_cells_def fold_append_map Let_def)
  have split: "numpy_split (body ?f)
      (numpy_cumsum (map (\<lambda>n. n + 1) (butlast (header ?f)))) = vss"
    using numpy_split_concat [OF ne] assms(5) by simp
  obtain gs where gs:
    "read_gridlines decimal_exponent empty_mesh 0 vss =
       Inr (empty_mesh\<lparr>gridlines := gridlines empty_mesh @ gs\<rparr>)"
    "map gl_label gs = map Some (take (length vss) (drop 0 labels))"
    "map (\<lambda>g. map seg_vertices (gl_segments g)) gs = map (\<lambda>vs. [vs]) vss"
    "map gl_nb_divisions gs = map (\<lambda>vs. int (length vs) - 1) vss"
    using read_gridlines_vertices [of 0 vss decimal_exponent empty_mesh] assms(3,4) len by auto
  have r: "mesh_read decimal_exponent empty_mesh ?f = Inr \<lparr>gridlines = gs\<rparr>"
    using gs(1) split assms(6) by (simp add: mesh_read_def Let_def empty_mesh_def)
  have lgs: "length gs = length vss"
    using gs(4) by (metis length_map)
  have "map (\<lambda>g. gridline_get_vertices g p) gs = map Inr vss"
  proof (rule nth_equalityI)
    show "length (map (\<lambda>g. gridline_get_vertices g p) gs) = length (map Inr vss)"
      using lgs by simp
  next
    fix i assume "i < length (map (\<lambda>g. gridline_get_vertices g p) gs)"
    then have i: "i < length gs" "i < length vss" "i < length (gridlines m)"
      using lgs len by simp_all
    have a: "gridline_get_vertices (gridlines m ! i) p = Inr (vss ! i)"
      using assms(1) i by (metis nth_map)
    have b: "map seg_vertices (gl_segments (gs ! i)) = [vss ! i]"
      using gs(3) i by (metis (no_types, lifting) nth_map)
    show "map (\<lambda>g. gridline_get_vertices g p) gs ! i = map Inr vss ! i"
      using gridline_get_vertices_reread [OF a b] i by simp
  qed
  with w r gs assms(5) len show ?thesis
    by (intro exI [of _ ?f] exI [of _ "\<lparr>gridlines = gs\<rparr>"]) simp
qed

theorem write_read_roundtrip_witness:
  "\<exists>f m'. mesh_write \<lparr>gridlines = [\<lparr>gl_label = Some ''x'', gl_start = Some 1, gl_end = Some 3,
         gl_segments = [\<lparr>seg_attributes = None, seg_vertices = [1, 2, 3],
                          seg_nb_divisions = 2\<rparr>],
         gl_nb_divisions = 2\<rparr>, \<lparr>gl_label = Some ''y'', gl_start = Some (1 / 2), gl_end = Some (3 / 2),
         gl_segments = [\<lparr>seg_attributes = None, seg_vertices = [1 / 2, 3 / 2],
                          seg_nb_divisions = 1\<rparr>],
         gl_nb_divisions = 1\<rparr>]\<rparr> 6 = Inr f
      \<and> mesh_read (\<lambda>r. 1) empty_mesh f = Inr m'
      \<and> map (\<lambda>g. map seg_vertices (gl_segments g)) (gridlines m') = [[[1, 2, 3]], [[1 / 2, 3 / 2]]]
      \<and> map (\<lambda>g. gridline_get_vertices g 6) (gridlines m') = [Inr [1, 2, 3], Inr [1 / 2, 3 / 2]]
      \<and> map gl_nb_divisions (gridlines m') = [2, 1]
      \<and> map gl_label (gridlines m') = [Some ''x'', Some ''y'']"
proof -
  let ?m = "\<lparr>gridlines = [\<lparr>gl_label = Some ''x'', gl_start = Some 1, gl_end = Some 3,
         gl_segments = [\<lparr>seg_attributes = None, seg_vertices = [1, 2, 3],
                          seg_nb_divisions = 2\<rparr>],
         gl_nb_divisions = 2\<rparr>, \<lparr>gl_label = Some ''y'', gl_start = Some (1 / 2), gl_end = Some (3 / 2),
         gl_segments = [\<lparr>seg_attributes = None, seg_vertices = [1 / 2, 3 / 2],
                          seg_nb_divisions = 1\<rparr>],
         gl_nb_divisions = 1\<rparr>]\<rparr>"
  let ?vss = "[[1, 2, 3], [1 / 2, 3 / 2 :: real]]"
  have a: "map (\<lambda>g. gridline_get_vertices g 6) (gridlines ?m) = map Inr ?vss"
    by (simp add: gridline_get_vertices_def numpy_concatenate_def numpy_round_def rint_def
        numpy_unique_def)
  have b: "gridlines ?m \<noteq> []" and c: "length (gridlines ?m) \<le> 3"
    by simp_all
  have d: "\<forall>vs \<in> set ?vss. 0 \<notin> set vs \<and> vs \<noteq> []"
    by simp
  have e: "map gl_nb_divisions (gridlines ?m) = map (\<lambda>vs. int (length vs) - 1) ?vss"
    by simp
  have f: "length (concat ?vss) \<noteq> 1"
    by simp
  show ?thesis
    using write_read_roundtrip [OF a b c d e f, where decimal_exponent = "\<lambda>r. 1"]
    by (simp add: labels_def)
qed

subsection \<open>The vertices of a segment\<close>







lemma cumprod_from_pos:
  "0 < a \<Longrightarrow> \<forall>x \<in> set xs. 0 < x \<Longrightarrow> \<forall>y \<in> set (cumprod_from a xs). 0 < y"
proof (induction xs arbitrary: a)
  case Nil
  then show ?case by simp
next
  case (Cons x xs)
  then have "0 < a * x"
    by simp
  then have "\<forall>y \<in> set (cumprod_from (a * x) xs). 0 < y"
    using Cons.prems by (intro Cons.IH) simp_all
  with \<open>0 < a * x\<close> show ?case
    by simp
qed

lemma cumsum_from_increasing:
  "\<forall>x \<in> set xs. (0::real) < x \<Longrightarrow> sorted_wrt (<) (acc # cumsum_from acc xs)"
proof (induction xs arbitrary: acc)
  case Nil
  then show ?case by simp
next
  case (Cons x xs)
  then have ih: "sorted_wrt (<) ((acc + x) # cumsum_from (acc + x) xs)"
    by simp
  then have "\<forall>y \<in> set (cumsum_from (acc + x) xs). acc + x < y"
    by simp
  with Cons.prems ih show ?case
    by auto
qed

lemma length_cumsum_from [simp]: "length (cumsum_from acc xs) = length xs"
  by (induction xs arbitrary: acc) simp_all

lemma length_cumprod_from [simp]: "length (cumprod_from acc xs) = length xs"
  by (induction xs arbitrary: acc) simp_all

lemma cumsum_from_Nil_iff [simp]: "cumsum_from acc xs = [] \<longleftrightarrow> xs = []"
  by (cases xs) simp_all

lemma last_cumsum_from:
  "xs \<noteq> [] \<Longrightarrow> last (cumsum_from acc xs) = acc + sum_list (xs :: real list)"
  by (induction xs arbitrary: acc) (auto simp: add.assoc)

lemma sum_list_cumprod_replicate:
  "r \<noteq> 1 \<Longrightarrow> sum_list (cumprod_from a (replicate k r)) = a * r * (1 - r ^ k) / (1 - r)"
proof (induction k arbitrary: a)
  case 0
  then show ?case by simp
next
  case (Suc k)
  then have "sum_list (cumprod_from (a * r) (replicate k r)) = a * r * r * (1 - r ^ k) / (1 - r)"
    by simp
  with Suc.prems show ?case
    by (simp add: field_simps)
qed

lemma sum_list_widths:
  assumes "r \<noteq> 1" and "0 < n"
  shows "sum_list (numpy_cumprod (width # replicate (nat n - 1) r)) = geometric_sum width r n"
proof -
  obtain k where k: "nat n = Suc k"
    using assms(2) by (metis gr0_implies_Suc zero_less_nat_eq)
  then have n: "n = int (Suc k)"
    using assms(2) by linarith
  have "r powi n = r ^ Suc k"
    unfolding n by (rule power_int_of_nat)
  with assms(1) k show ?thesis
    by (simp add: numpy_cumprod_def geometric_sum_def sum_list_cumprod_replicate field_simps)
qed

lemma ln_quotient_9_2: "py_round (ln (9 / 2) / ln 2) = 2"
proof -
  have l2: "0 < ln (2::real)"
    by simp
  have four: "ln (4::real) = 2 * ln 2"
    using ln_realpow [of "2::real" 2] by simp
  have tt: "ln (32::real) = 5 * ln 2"
    using ln_realpow [of "2::real" 5] by simp
  have "ln (4::real) \<le> ln (9 / 2)"
    by (subst ln_le_cancel_iff) simp_all
  then have lo: "2 \<le> ln (9 / 2) / ln (2::real)"
    using l2 four by (simp add: field_simps)
  have sq: "ln (81 / 4 :: real) = 2 * ln (9 / 2)"
    using ln_realpow [of "9 / 2 :: real" 2] by (simp add: power2_eq_square)
  have "ln (81 / 4 :: real) < ln 32"
    by (subst ln_less_cancel_iff) simp_all
  then have "ln (9 / 2 :: real) < 5 / 2 * ln 2"
    using tt sq by simp
  then have hi: "ln (9 / 2) / ln (2::real) < 5 / 2"
    using l2 by (simp add: pos_divide_less_eq)
  define q :: real where "q = ln (9 / 2) / ln 2"
  have "2 \<le> q" and "q < 5 / 2"
    using lo hi by (simp_all add: q_def)
  then have "\<lfloor>q + 1 / 2\<rfloor> = 2" and "0 \<le> q"
    by (linarith, linarith)
  then have "py_round q = 2"
    by (simp add: py_round_def)
  then show ?thesis
    by (simp add: q_def)
qed

lemma get_vertices_forward_example:
  "get_vertices 0 (7 / 2) 1 2 False = Inr ([0, 1, 3], 2, 2)"
  using ln_quotient_9_2
  by (simp add: get_vertices_def stretched_divisions_def log_quotient_def numpy_cumprod_def
      numpy_cumsum_def)

lemma get_vertices_reverse_example:
  "get_vertices 0 (7 / 2) 1 2 True = Inr ([1 / 2, 5 / 2, 7 / 2], 2, 1 / 2)"
  using ln_quotient_9_2
  by (simp add: get_vertices_def stretched_divisions_def log_quotient_def numpy_cumprod_def
      numpy_cumsum_def)

text \<open>
  Claim C8. For a stretched segment, \<open>get_vertices\<close> with \<open>reverse\<close> returns what it
  returns without, mirrored: each vertex \<open>v\<close> becomes \<open>start + end - v\<close> (the reflection
  about the midpoint) and the order is reversed; the aspect ratio is the same and the
  stretching ratio stored is \<open>1/ratio\<close>; an exception is the same exception. For a positive
  width the reversed vertices are in strictly ascending order and end at \<open>end\<close>.
\<close>

theorem reversed_get_vertices:
  assumes "\<not> \<bar>ratio - 1\<bar> < 1 / 10 ^ 6"
  shows "get_vertices start endv width ratio True =
           (case get_vertices start endv width ratio False of
              Inl e \<Rightarrow> Inl e
            | Inr (vs, aspect_ratio, stretch_ratio) \<Rightarrow>
                Inr (rev (map (\<lambda>v. start + endv - v) vs), aspect_ratio, 1 / ratio))
     \<and> (0 < width \<and> get_vertices start endv width ratio True = Inr (vs', ar, sr) \<longrightarrow>
          sorted_wrt (<) vs' \<and> last vs' = endv \<and> sr = 1 / ratio)"
proof -
  have mirror: "get_vertices start endv width ratio True =
           (case get_vertices start endv width ratio False of
              Inl e \<Rightarrow> Inl e
            | Inr (vs, aspect_ratio, stretch_ratio) \<Rightarrow>
                Inr (rev (map (\<lambda>v. start + endv - v) vs), aspect_ratio, 1 / ratio))"
    using assms
    by (simp add: get_vertices_def Let_def comp_def split: sum.splits)
  have asc: "sorted_wrt (<) vs' \<and> last vs' = endv \<and> sr = 1 / ratio"
    if w: "0 < width" and gv: "get_vertices start endv width ratio True = Inr (vs', ar, sr)"
  proof -
    obtain n where n: "stretched_divisions \<bar>endv - start\<bar> width ratio = Inr n" "0 < n"
      using gv assms by (auto simp: get_vertices_def Let_def split: sum.splits if_splits)
    have r: "0 < ratio"
      using n(1) by (auto simp: stretched_divisions_def log_quotient_def split: if_splits)
    let ?widths = "numpy_cumprod (width # replicate (nat n - 1) ratio)"
    have vs': "vs' = rev (endv # map (\<lambda>c. endv - c) (numpy_cumsum ?widths))" and sr: "sr = 1 / ratio"
      using gv assms n by (auto simp: get_vertices_def Let_def)
    have "\<forall>y \<in> set ?widths. 0 < y"
      unfolding numpy_cumprod_def using w r by (intro cumprod_from_pos) auto
    then have "sorted_wrt (<) (0 # numpy_cumsum ?widths)"
      unfolding numpy_cumsum_def by (rule cumsum_from_increasing)
    then have "sorted_wrt (>) (map (\<lambda>c. endv - c) (0 # numpy_cumsum ?widths))"
      by (simp add: sorted_wrt_map)
    then have "sorted_wrt (<) (rev (map (\<lambda>c. endv - c) (0 # numpy_cumsum ?widths)))"
      by (simp add: sorted_wrt_rev del: list.map)
    then have "sorted_wrt (<) vs'"
      unfolding vs' by simp
    moreover have "last vs' = endv"
      unfolding vs' by simp
    ultimately show ?thesis
      using sr by simp
  qed
  from mirror asc show ?thesis
    by blast
qed

theorem reversed_get_vertices_witness:
  "\<not> \<bar>(2::real) - 1\<bar> < 1 / 10 ^ 6 \<and> (0::real) < 1
   \<and> get_vertices 0 (7 / 2) 1 2 False = Inr ([0, 1, 3], 2, 2)
   \<and> get_vertices 0 (7 / 2) 1 2 True =
       Inr (rev (map (\<lambda>v. 0 + 7 / 2 - v) [0, 1, 3]), 2, 1 / 2)
   \<and> sorted_wrt (<) [1 / 2, 5 / 2, 7 / 2 :: real] \<and> last [1 / 2, 5 / 2, 7 / 2 :: real] = 7 / 2"
proof -
  have s: "\<not> \<bar>(2::real) - 1\<bar> < 1 / 10 ^ 6"
    by simp
  show ?thesis
    using reversed_get_vertices
        [OF s, where start = 0 and endv = "7 / 2" and width = 1
          and vs' = "[1 / 2, 5 / 2, 7 / 2]" and ar = 2 and sr = "1 / 2"]
      get_vertices_forward_example get_vertices_reverse_example
    by simp
qed

text \<open>
  Claim C4 as stated fails: the stretched segment from 0 to 3.5 with first width 1 and
  ratio 2 has the vertices 0, 1, 3; the last is not the end 3.5.
\<close>

theorem stretched_last_vertex_not_end:
  "get_vertices 0 (7 / 2) 1 2 False = Inr ([0, 1, 3], 2, 2) \<and> last [0, 1, 3 :: real] \<noteq> 7 / 2"
  using get_vertices_forward_example by simp

text \<open>
  Claim C4, as the code has it. \<open>get_vertices\<close> places one boundary only. A uniform array
  is \<open>start + i * width\<close>: it begins at \<open>start\<close> and ends at \<open>start + (len - 1) * width\<close>.
  A stretched array has \<open>n + 1\<close> values, \<open>n\<close> the number of divisions computed; built forward
  it begins at \<open>start\<close>, which is inserted, and ends at \<open>start\<close> plus the sum of the widths,
  \<open>width * (1 - ratio^n) / (1 - ratio)\<close>; built in reverse it ends at \<open>end\<close>, which is
  inserted, and begins at \<open>end\<close> minus that sum.
\<close>

theorem get_vertices_limits:
  assumes "get_vertices start endv width ratio reverse = Inr (vs, ar, sr)"
  shows "if \<bar>ratio - 1\<bar> < 1 / 10 ^ 6
     then vs = map (\<lambda>i. start + real i * width) [0 ..< length vs]
        \<and> (vs \<noteq> [] \<longrightarrow> hd vs = start \<and> last vs = start + real (length vs - 1) * width)
     else (\<exists>n. stretched_divisions \<bar>endv - start\<bar> width ratio = Inr n \<and> 0 < n
        \<and> int (length vs) = n + 1
        \<and> (if reverse
            then last vs = endv \<and> hd vs = endv - geometric_sum width ratio n
            else hd vs = start \<and> last vs = start + geometric_sum width ratio n))"
proof (cases "\<bar>ratio - 1\<bar> < 1 / 10 ^ 6")
  case True
  let ?f = "\<lambda>i. start + real i * width"
  have "vs = numpy_arange start (endv + width / 2) width"
    using assms True by (auto simp: get_vertices_def Let_def split: if_splits)
  then obtain N where vs: "vs = map ?f [0 ..< N]"
    unfolding numpy_arange_def by blast
  then have len: "length vs = N"
    by simp
  have "hd vs = start \<and> last vs = start + real (length vs - 1) * width" if "vs \<noteq> []"
  proof -
    from that vs have N: "0 < N"
      by auto
    then have "hd (map ?f [0 ..< N]) = start"
      by (simp add: hd_map)
    moreover have "last (map ?f [0 ..< N]) = start + real (N - 1) * width"
      using N by (simp add: last_map)
    ultimately show ?thesis
      using vs by simp
  qed
  with True vs len show ?thesis
    by simp
next
  case stretched: False
  have "\<exists>n. stretched_divisions \<bar>endv - start\<bar> width ratio = Inr n \<and> 0 < n
     \<and> int (length vs) = n + 1
     \<and> (if reverse
         then last vs = endv \<and> hd vs = endv - geometric_sum width ratio n
         else hd vs = start \<and> last vs = start + geometric_sum width ratio n)"
  proof -
    obtain n where n: "stretched_divisions \<bar>endv - start\<bar> width ratio = Inr n" "0 < n"
      using assms stretched by (auto simp: get_vertices_def Let_def split: sum.splits if_splits)
    have r: "ratio \<noteq> 1"
      using stretched by auto
    let ?widths = "numpy_cumprod (width # replicate (nat n - 1) ratio)"
    let ?cs = "numpy_cumsum ?widths"
    have ne: "?widths \<noteq> []"
      by (simp add: numpy_cumprod_def)
    then have cs: "?cs \<noteq> []"
      by (metis length_cumsum_from length_0_conv numpy_cumsum_def)
    have lcs: "length ?cs = nat n"
      using n(2) by (simp add: numpy_cumsum_def numpy_cumprod_def)
    have "last ?cs = 0 + sum_list ?widths"
      unfolding numpy_cumsum_def using ne by (rule last_cumsum_from)
    then have last: "last ?cs = geometric_sum width ratio n"
      using sum_list_widths [OF r n(2)] by simp
    show ?thesis
    proof (cases reverse)
      case True
      then have vs: "vs = rev (endv # map (\<lambda>c. endv - c) ?cs)"
        using assms stretched n by (auto simp: get_vertices_def Let_def)
      have "hd vs = endv - last ?cs"
        unfolding vs using cs by (simp add: hd_rev last_map)
      with vs last lcs n True show ?thesis
        by simp
    next
      case False
      then have vs: "vs = start # map (\<lambda>c. start + c) ?cs"
        using assms stretched n by (auto simp: get_vertices_def Let_def)
      have "last vs = start + last ?cs"
        unfolding vs using cs by (simp add: last_map)
      with vs last lcs n False show ?thesis
        by simp
    qed
  qed
  with stretched show ?thesis
    by simp
qed

theorem get_vertices_limits_witness:
  "get_vertices 0 (7 / 2) 1 2 True = Inr ([1 / 2, 5 / 2, 7 / 2], 2, 1 / 2)
   \<and> stretched_divisions \<bar>7 / 2 - 0\<bar> 1 2 = Inr 2
   \<and> last [1 / 2, 5 / 2, 7 / 2 :: real] = 7 / 2
   \<and> hd [1 / 2, 5 / 2, 7 / 2 :: real] = 7 / 2 - geometric_sum 1 2 2"
proof -
  have n: "stretched_divisions \<bar>7 / 2 - 0\<bar> 1 2 = Inr 2"
    using ln_quotient_9_2 by (simp add: stretched_divisions_def log_quotient_def)
  show ?thesis
    using get_vertices_limits [OF get_vertices_reverse_example] n get_vertices_reverse_example
    by simp
qed

subsection \<open>The search for the stretching ratio\<close>









end
